theory Spec2Isabelle
  imports Main "HOL-Library.Sublist"
begin

section \<open>Data model\<close>

text \<open>
  The bot keeps its connections in the module global \<open>connections_data\<close>, a Python list of
  dicts. Lists and dicts are objects: a variable holds a reference, \<open>list.copy()\<close> makes a
  new list object that holds the same references to the same dict objects. The model keeps
  one store per kind of object, each a function from references to contents, with a counter
  of the next unused reference.

  A stored dict always has the five keys that \<open>handle_business_connection\<close> writes, so its
  contents are a record with these five fields.
\<close>

type_synonym ref = nat

record conn =
  user_id :: int
  username :: string
  connection_id :: string
  business_connection_id :: string
  connected_at :: string

text \<open>
  Exceptions are values. Only subclasses of \<open>Exception\<close> are modelled; each carries the text
  that \<open>str(e)\<close> gives, which is what \<open>check_permissions\<close> inspects.
\<close>

datatype exn = TelegramBadRequest string | TelegramNotFound string | OtherException string

fun str :: "exn \<Rightarrow> string" where
  "str (TelegramBadRequest m) = m"
| "str (TelegramNotFound m) = m"
| "str (OtherException m) = m"

text \<open>
  The two messages the core sends to the admins are f-strings over a fixed template; a
  message is modelled by its template and the values that fill it.
\<close>

datatype message =
    NewConnectionText string int string
  | AutomationCompleteText string int int int int

record gift =
  owned_gift_id :: string

text \<open>
  Every call that leaves the process is recorded, with its outcome, in a trace. The remote
  side is an arbitrary function of the trace so far and the arguments of the call, so any
  pattern of successes and failures is one value of \<open>api\<close>.
\<close>

datatype call =
    Request string string
  | GetBusinessAccountGifts string bool
  | ConvertGiftToStars string string
  | TransferGift string string int int
  | GetBusinessAccountStarBalance string
  | TransferBusinessAccountStars string int
  | SendMessage int message
  | Sleep int

datatype outcome = Returned | Raised exn

type_synonym event = "call \<times> outcome"

record api =
  request :: "event list \<Rightarrow> string \<Rightarrow> string \<Rightarrow> exn + unit"
  get_business_account_gifts :: "event list \<Rightarrow> string \<Rightarrow> bool \<Rightarrow> exn + gift list"
  convert_gift_to_stars :: "event list \<Rightarrow> string \<Rightarrow> string \<Rightarrow> exn + unit"
  transfer_gift :: "event list \<Rightarrow> string \<Rightarrow> string \<Rightarrow> int \<Rightarrow> int \<Rightarrow> exn + unit"
  get_business_account_star_balance :: "event list \<Rightarrow> string \<Rightarrow> exn + int"
  transfer_business_account_stars :: "event list \<Rightarrow> string \<Rightarrow> int \<Rightarrow> exn + unit"
  send_message :: "event list \<Rightarrow> int \<Rightarrow> message \<Rightarrow> exn + unit"

text \<open>The values of \<open>config.py\<close> that the core reads.\<close>

record config =
  ADMIN_IDS :: "int list"
  RECIPIENT_ID :: int
  TRANSFER_FEE :: int

text \<open>
  The state of the process: the two object stores, the global \<open>connections_data\<close> (a
  reference to a list object), the trace of external calls, and the coroutines handed to
  \<open>asyncio.create_task\<close> (each a call of \<open>process_connected_account\<close> with its two
  arguments; a created task is recorded, not run).
\<close>

record state =
  list_at :: "ref \<Rightarrow> ref list"
  dict_at :: "ref \<Rightarrow> conn"
  next_list :: ref
  next_dict :: ref
  connections_data :: ref
  trace :: "event list"
  tasks :: "(string \<times> string) list"

section \<open>Objects\<close>

text \<open>
  Creating an object takes the next unused reference. \<open>list_copy\<close> is Python's
  \<open>list.copy()\<close>: a new list object with the same elements.
\<close>

definition new_list :: "ref list \<Rightarrow> state \<Rightarrow> ref \<times> state" where
  "new_list xs s =
     (next_list s, s\<lparr>list_at := (list_at s)(next_list s := xs), next_list := Suc (next_list s)\<rparr>)"

definition new_dict :: "conn \<Rightarrow> state \<Rightarrow> ref \<times> state" where
  "new_dict d s =
     (next_dict s, s\<lparr>dict_at := (dict_at s)(next_dict s := d), next_dict := Suc (next_dict s)\<rparr>)"

definition list_copy :: "ref \<Rightarrow> state \<Rightarrow> ref \<times> state" where
  "list_copy l s = new_list (list_at s l) s"

section \<open>The connection store\<close>

definition load_connections :: "state \<Rightarrow> ref \<times> state" where
  "load_connections s = list_copy (connections_data s) s"

definition save_connections :: "ref \<Rightarrow> state \<Rightarrow> state" where
  "save_connections connections s =
     (let (c, s1) = list_copy connections s in s1\<lparr>connections_data := c\<rparr>)"

definition remove_invalid_connection :: "string \<Rightarrow> state \<Rightarrow> bool \<times> state" where
  "remove_invalid_connection cid s =
     (let (connections, s1) = load_connections s;
          (new_connections, s2) =
             new_list (filter (\<lambda>c. connection_id (dict_at s1 c) \<noteq> cid) (list_at s1 connections)) s1
      in if length (list_at s2 new_connections) < length (list_at s2 connections)
         then (True, save_connections new_connections s2)
         else (False, s2))"

text \<open>
  What the store holds: the contents of the dicts that the global list refers to, in order.
\<close>

definition records :: "state \<Rightarrow> conn list" where
  "records s = map (dict_at s) (list_at s (connections_data s))"

text \<open>
  A state is well formed when the global refers to an allocated list object; a reference
  at or beyond the counter has not been handed out yet.
\<close>

definition well_formed :: "state \<Rightarrow> bool" where
  "well_formed s \<longleftrightarrow>
     connections_data s < next_list s \<and>
     list_all (\<lambda>r. r < next_dict s) (list_at s (connections_data s))"

text \<open>The state at import time: \<open>connections_data = []\<close>, nothing called, no task.\<close>

definition init :: state where
  "init = \<lparr>list_at = (\<lambda>_. []), dict_at = (\<lambda>_. \<lparr>user_id = 0, username = [], connection_id = [],
              business_connection_id = [], connected_at = []\<rparr>),
            next_list = 1, next_dict = 0, connections_data = 0, trace = [], tasks = []\<rparr>"


section \<open>The permission check\<close>

text \<open>
  \<open>outcome_of\<close> is what the trace keeps of a call's result. Python's \<open>x in str(e)\<close> on
  strings is the contiguous-sublist test \<open>sublist\<close>. The \<open>except\<close> clauses are tried in
  the order of the source; \<open>TelegramBadRequest\<close> and \<open>TelegramNotFound\<close> are unrelated
  classes, and every other exception reaches \<open>except Exception\<close>.
\<close>

fun outcome_of :: "exn + 'a \<Rightarrow> outcome" where
  "outcome_of (Inl e) = Raised e"
| "outcome_of (Inr _) = Returned"

definition check_permissions :: "api \<Rightarrow> string \<Rightarrow> state \<Rightarrow> bool \<times> state" where
  "check_permissions a cid s =
     (let r = request a (trace s) ''getBusinessAccountStarBalance'' cid;
          s1 = s\<lparr>trace := trace s @ [(Request ''getBusinessAccountStarBalance'' cid, outcome_of r)]\<rparr>
      in case r of
           Inr _ \<Rightarrow> (True, s1)
         | Inl e \<Rightarrow>
            (case e of
               TelegramBadRequest _ \<Rightarrow>
                 if sublist ''BUSINESS_CONNECTION_INVALID'' (str e)
                 then (False, snd (remove_invalid_connection cid s1))
                 else if sublist ''Forbidden'' (str e) \<or> sublist ''no rights'' (str e)
                 then (False, s1)
                 else (False, s1)
             | TelegramNotFound _ \<Rightarrow>
                 if sublist ''BUSINESS_CONNECTION_INVALID'' (str e)
                 then (False, snd (remove_invalid_connection cid s1))
                 else (False, s1)
             | OtherException _ \<Rightarrow> (False, s1)))"

section \<open>The three extraction steps\<close>

text \<open>
  The steps touch nothing but the remote side, so they pass the trace alone. Each
  \<open>for\<close> loop is a recursion over the remaining items, with the counter as accumulator;
  the \<open>try\<close> inside the loop body covers the whole body, so a raising call goes on with
  the next item and the counter as it was. \<open>asyncio.sleep(1)\<close> follows each success.
  Logging is left out.
\<close>

fun convert_loop :: "api \<Rightarrow> string \<Rightarrow> gift list \<Rightarrow> int \<Rightarrow> event list \<Rightarrow> int \<times> event list" where
  "convert_loop a cid [] converted_count tr = (converted_count, tr)"
| "convert_loop a cid (g # gs) converted_count tr =
     (let r = convert_gift_to_stars a tr cid (owned_gift_id g);
          tr1 = tr @ [(ConvertGiftToStars cid (owned_gift_id g), outcome_of r)]
      in case r of
           Inl e \<Rightarrow> convert_loop a cid gs converted_count tr1
         | Inr _ \<Rightarrow> convert_loop a cid gs (converted_count + 1) (tr1 @ [(Sleep 1, Returned)]))"

definition convert_non_unique_gifts_to_stars :: "api \<Rightarrow> string \<Rightarrow> event list \<Rightarrow> int \<times> event list" where
  "convert_non_unique_gifts_to_stars a cid tr =
     (let r = get_business_account_gifts a tr cid True;
          tr1 = tr @ [(GetBusinessAccountGifts cid True, outcome_of r)]
      in case r of
           Inl e \<Rightarrow> (0, tr1)
         | Inr gifts \<Rightarrow> convert_loop a cid gifts 0 tr1)"

fun transfer_loop :: "api \<Rightarrow> config \<Rightarrow> string \<Rightarrow> gift list \<Rightarrow> int \<Rightarrow> event list \<Rightarrow> int \<times> event list" where
  "transfer_loop a cfg cid [] transferred_count tr = (transferred_count, tr)"
| "transfer_loop a cfg cid (g # gs) transferred_count tr =
     (let r = transfer_gift a tr cid (owned_gift_id g) (RECIPIENT_ID cfg) (TRANSFER_FEE cfg);
          tr1 = tr @ [(TransferGift cid (owned_gift_id g) (RECIPIENT_ID cfg) (TRANSFER_FEE cfg),
                       outcome_of r)]
      in case r of
           Inl e \<Rightarrow> transfer_loop a cfg cid gs transferred_count tr1
         | Inr _ \<Rightarrow> transfer_loop a cfg cid gs (transferred_count + 1) (tr1 @ [(Sleep 1, Returned)]))"

definition transfer_unique_gifts :: "api \<Rightarrow> config \<Rightarrow> string \<Rightarrow> event list \<Rightarrow> int \<times> event list" where
  "transfer_unique_gifts a cfg cid tr =
     (let r = get_business_account_gifts a tr cid False;
          tr1 = tr @ [(GetBusinessAccountGifts cid False, outcome_of r)]
      in case r of
           Inl e \<Rightarrow> (0, tr1)
         | Inr gifts \<Rightarrow> if gifts = [] then (0, tr1) else transfer_loop a cfg cid gifts 0 tr1)"

definition transfer_remaining_stars :: "api \<Rightarrow> string \<Rightarrow> event list \<Rightarrow> int \<times> event list" where
  "transfer_remaining_stars a cid tr =
     (let r = get_business_account_star_balance a tr cid;
          tr1 = tr @ [(GetBusinessAccountStarBalance cid, outcome_of r)]
      in case r of
           Inl e \<Rightarrow> (0, tr1)
         | Inr amount \<Rightarrow>
             if amount > 0
             then (let r2 = transfer_business_account_stars a tr1 cid amount;
                       tr2 = tr1 @ [(TransferBusinessAccountStars cid amount, outcome_of r2)]
                   in case r2 of Inl e \<Rightarrow> (0, tr2) | Inr _ \<Rightarrow> (amount, tr2))
             else (0, tr1))"

section \<open>The run\<close>

text \<open>
  The loop over \<open>config.ADMIN_IDS\<close> appears twice in the source, with the same body; the
  \<open>try\<close> around \<open>send_message\<close> drops the exception and the loop goes on.

  In \<open>process_connected_account\<close> every statement of the outer \<open>try\<close> is a call of a
  function that handles its own exceptions, or sits in the inner \<open>try\<close>; no exception is
  left for the outer handler and its \<open>return 0, 0, 0\<close>.
\<close>

fun send_loop :: "api \<Rightarrow> int list \<Rightarrow> message \<Rightarrow> event list \<Rightarrow> event list" where
  "send_loop a [] m tr = tr"
| "send_loop a (admin_id # rest) m tr =
     send_loop a rest m (tr @ [(SendMessage admin_id m, outcome_of (send_message a tr admin_id m))])"

definition process_connected_account ::
  "api \<Rightarrow> config \<Rightarrow> string \<Rightarrow> string \<Rightarrow> event list \<Rightarrow> (int \<times> int \<times> int) \<times> event list" where
  "process_connected_account a cfg cid uname tr =
     (let (converted_count, tr1) = convert_non_unique_gifts_to_stars a cid tr;
          (transferred_count, tr2) = transfer_unique_gifts a cfg cid tr1;
          (transferred_stars, tr3) = transfer_remaining_stars a cid tr2;
          summary = AutomationCompleteText uname converted_count transferred_count
                      transferred_stars (transferred_count * TRANSFER_FEE cfg)
      in ((converted_count, transferred_count, transferred_stars),
          send_loop a (ADMIN_IDS cfg) summary tr3))"

section \<open>The event handlers\<close>

text \<open>
  A \<open>BusinessConnection\<close> update carries the connection id and the user (id and optional
  username); a business message carries its connection id and its sender.
  \<open>time.time()\<close> is read from the environment: the handler takes \<open>str(time.time())\<close> as
  an argument.
\<close>

record business_connection =
  bc_id :: string
  bc_user_id :: int
  bc_user_username :: "string option"

record business_message =
  msg_business_connection_id :: string
  msg_from_user_id :: int

text \<open>\<open>connection.user.username or "Unknown"\<close>: \<open>None\<close> and the empty string are falsy.\<close>

definition label :: "business_connection \<Rightarrow> string" where
  "label c = (case bc_user_username c of None \<Rightarrow> ''Unknown''
              | Some u \<Rightarrow> if u = [] then ''Unknown'' else u)"

definition connection_data_of :: "string \<Rightarrow> business_connection \<Rightarrow> conn" where
  "connection_data_of now c =
     \<lparr>user_id = bc_user_id c, username = label c, connection_id = bc_id c,
      business_connection_id = bc_id c, connected_at = now\<rparr>"

text \<open>
  \<open>for i, conn in enumerate(connections)\<close>: the loop walks the elements with their index
  and, at the first dict of this user, stores the new reference at that index and breaks.
  The result is the contents of the list and the flag \<open>updated\<close>.
\<close>

fun update_loop :: "(ref \<Rightarrow> conn) \<Rightarrow> int \<Rightarrow> ref \<Rightarrow> nat \<Rightarrow> ref list \<Rightarrow> ref list \<Rightarrow> ref list \<times> bool" where
  "update_loop d uid new i [] connections = (connections, False)"
| "update_loop d uid new i (c # rest) connections =
     (if user_id (d c) = uid then (connections[i := new], True)
      else update_loop d uid new (Suc i) rest connections)"

text \<open>
  In \<open>handle_business_connection\<close> the local list \<open>connections\<close> is changed in place
  (\<open>connections[i] = connection_data\<close> or \<open>connections.append(connection_data)\<close>) and
  then saved. Nothing in the body of the outer \<open>try\<close> raises outside the inner \<open>try\<close>
  around \<open>send_message\<close>, so the outer handler has no case. \<open>asyncio.create_task\<close> adds
  the call to \<open>tasks\<close>.

  In \<open>get_message\<close>, \<open>next((c for c in connections if ...), None)\<close> is \<open>find\<close>; a stored
  dict has five keys, so \<open>if connection:\<close> holds exactly when one was found, and
  \<open>connection.get("username", "Unknown")\<close> is its \<open>username\<close>.
\<close>

definition handle_business_connection ::
  "api \<Rightarrow> config \<Rightarrow> string \<Rightarrow> business_connection \<Rightarrow> state \<Rightarrow> state" where
  "handle_business_connection a cfg now c s =
     (let (connections, s1) = load_connections s;
          (connection_data, s2) = new_dict (connection_data_of now c) s1;
          (xs, updated) = update_loop (dict_at s2) (bc_user_id c) connection_data 0
                            (list_at s2 connections) (list_at s2 connections);
          s3 = s2\<lparr>list_at := (list_at s2)
                     (connections := if updated then xs else xs @ [connection_data])\<rparr>;
          s4 = save_connections connections s3;
          s5 = s4\<lparr>trace := send_loop a (ADMIN_IDS cfg)
                              (NewConnectionText (label c) (bc_user_id c) (bc_id c)) (trace s4)\<rparr>
      in s5\<lparr>tasks := tasks s5 @ [(bc_id c, label c)]\<rparr>)"

definition get_message :: "config \<Rightarrow> business_message \<Rightarrow> state \<Rightarrow> state" where
  "get_message cfg m s =
     (if msg_from_user_id m = RECIPIENT_ID cfg then s
      else
        (let (connections, s1) = load_connections s
         in case find (\<lambda>c. business_connection_id (dict_at s1 c) = msg_business_connection_id m)
                   (list_at s1 connections) of
              None \<Rightarrow> s1
            | Some c \<Rightarrow>
                s1\<lparr>tasks := tasks s1 @ [(msg_business_connection_id m, username (dict_at s1 c))]\<rparr>))"

text \<open>A sequence of new-connection events, each with the clock reading at its arrival.\<close>

fun run :: "api \<Rightarrow> config \<Rightarrow> (string \<times> business_connection) list \<Rightarrow> state \<Rightarrow> state" where
  "run a cfg [] s = s"
| "run a cfg ((now, c) # evs) s = run a cfg evs (handle_business_connection a cfg now c s)"

section \<open>Mutations by a caller\<close>

text \<open>
  What a caller can do to an object it holds a reference to. \<open>list_mutate\<close> stands for
  every in-place change of a list object (\<open>append\<close>, \<open>del\<close>, \<open>l[i] = x\<close>,
  \<open>clear\<close>, \<open>sort\<close>): the list gets new contents, computed from the old ones.
  \<open>dict_set_username\<close> is \<open>d["username"] = v\<close> on a dict object.
\<close>

definition list_mutate :: "ref \<Rightarrow> (ref list \<Rightarrow> ref list) \<Rightarrow> state \<Rightarrow> state" where
  "list_mutate l f s = s\<lparr>list_at := (list_at s)(l := f (list_at s l))\<rparr>"

definition dict_set_username :: "ref \<Rightarrow> string \<Rightarrow> state \<Rightarrow> state" where
  "dict_set_username r v s = s\<lparr>dict_at := (dict_at s)(r := (dict_at s r)\<lparr>username := v\<rparr>)\<rparr>"

section \<open>The store as a list of values\<close>

text \<open>
  What the handler of a new connection does to the contents of the store, without the
  objects: \<open>upsert\<close> replaces the first record of the same user, or appends.
  \<open>replace_first\<close> is the same on references.
\<close>

fun upsert :: "conn \<Rightarrow> conn list \<Rightarrow> conn list" where
  "upsert n [] = [n]"
| "upsert n (c # cs) = (if user_id c = user_id n then n # cs else c # upsert n cs)"

fun replace_first :: "(ref \<Rightarrow> conn) \<Rightarrow> int \<Rightarrow> ref \<Rightarrow> ref list \<Rightarrow> ref list" where
  "replace_first d uid new [] = []"
| "replace_first d uid new (c # cs) =
     (if user_id (d c) = uid then new # cs else c # replace_first d uid new cs)"

fun upsert_all :: "(string \<times> business_connection) list \<Rightarrow> conn list \<Rightarrow> conn list" where
  "upsert_all [] cs = cs"
| "upsert_all ((now, c) # evs) cs = upsert_all evs (upsert (connection_data_of now c) cs)"

section \<open>Kinds of error in the permission check\<close>

text \<open>
  The tests that \<open>check_permissions\<close> makes on an exception, in its order: the class
  and the marker text of an invalid connection first, then the texts of a refusal.
\<close>

definition delegation_invalid :: "exn \<Rightarrow> bool" where
  "delegation_invalid e \<longleftrightarrow>
     (case e of TelegramBadRequest _ \<Rightarrow> True | TelegramNotFound _ \<Rightarrow> True | OtherException _ \<Rightarrow> False) \<and>
     sublist ''BUSINESS_CONNECTION_INVALID'' (str e)"

definition forbidden :: "exn \<Rightarrow> bool" where
  "forbidden e \<longleftrightarrow>
     (case e of TelegramBadRequest _ \<Rightarrow> True | TelegramNotFound _ \<Rightarrow> False | OtherException _ \<Rightarrow> False) \<and>
     \<not> sublist ''BUSINESS_CONNECTION_INVALID'' (str e) \<and>
     (sublist ''Forbidden'' (str e) \<or> sublist ''no rights'' (str e))"

section \<open>Reading the trace\<close>

text \<open>
  \<open>since tr tr'\<close> is what a run added to the trace \<open>tr\<close>. The projections keep the
  calls of one kind, with the item or amount and the outcome; \<open>sent\<close> keeps the
  recipient and the message of every \<open>send_message\<close>, returned or raised.
\<close>

definition since :: "event list \<Rightarrow> event list \<Rightarrow> event list" where
  "since tr tr' = drop (length tr) tr'"

fun conversions :: "event list \<Rightarrow> (string \<times> outcome) list" where
  "conversions [] = []"
| "conversions ((ConvertGiftToStars cid g, out) # tr) = (g, out) # conversions tr"
| "conversions (_ # tr) = conversions tr"

fun transfers :: "event list \<Rightarrow> (string \<times> outcome) list" where
  "transfers [] = []"
| "transfers ((TransferGift cid g r fee, out) # tr) = (g, out) # transfers tr"
| "transfers (_ # tr) = transfers tr"

fun star_transfers :: "event list \<Rightarrow> (int \<times> outcome) list" where
  "star_transfers [] = []"
| "star_transfers ((TransferBusinessAccountStars cid n, out) # tr) = (n, out) # star_transfers tr"
| "star_transfers (_ # tr) = star_transfers tr"

fun sent :: "event list \<Rightarrow> (int \<times> message) list" where
  "sent [] = []"
| "sent ((SendMessage admin_id m, out) # tr) = (admin_id, m) # sent tr"
| "sent (_ # tr) = sent tr"

definition succeeded :: "('a \<times> outcome) list \<Rightarrow> nat" where
  "succeeded xs = length (filter (\<lambda>x. snd x = Returned) xs)"

definition failed :: "('a \<times> outcome) list \<Rightarrow> nat" where
  "failed xs = length (filter (\<lambda>x. snd x \<noteq> Returned) xs)"

section \<open>Example inputs\<close>

text \<open>
  A remote side where the item \<open>g2\<close> can be neither converted nor transferred, the
  probe call reports an invalid connection, and the admin 2 cannot be reached; variants
  of it; and the state after two users have connected.
\<close>

definition demo_api :: api where
  "demo_api =
     \<lparr>request = (\<lambda>tr m cid. Inl (TelegramBadRequest ''Bad Request: BUSINESS_CONNECTION_INVALID'')),
      get_business_account_gifts =
        (\<lambda>tr cid ex. Inr [\<lparr>owned_gift_id = ''g1''\<rparr>, \<lparr>owned_gift_id = ''g2''\<rparr>,
                          \<lparr>owned_gift_id = ''g3''\<rparr>]),
      convert_gift_to_stars =
        (\<lambda>tr cid g. if g = ''g2'' then Inl (OtherException ''STARGIFT_CONVERT_TOO_OLD'') else Inr ()),
      transfer_gift =
        (\<lambda>tr cid g r fee. if g = ''g2'' then Inl (OtherException ''BALANCE_TOO_LOW'') else Inr ()),
      get_business_account_star_balance = (\<lambda>tr cid. Inr 10),
      transfer_business_account_stars = (\<lambda>tr cid n. Inr ()),
      send_message =
        (\<lambda>tr admin m. if admin = 2 then Inl (OtherException ''chat not found'') else Inr ())\<rparr>"

definition forbidden_api :: api where
  "forbidden_api = demo_api\<lparr>request :=
     (\<lambda>tr m cid. Inl (TelegramBadRequest ''Forbidden: bot has no rights to view the balance''))\<rparr>"

definition timeout_api :: api where
  "timeout_api = demo_api\<lparr>request := (\<lambda>tr m cid. Inl (OtherException ''Request timeout error''))\<rparr>"

definition empty_api :: api where
  "empty_api = demo_api\<lparr>get_business_account_gifts := (\<lambda>tr cid ex. Inr [])\<rparr>"

definition failing_api :: api where
  "failing_api = demo_api\<lparr>
     get_business_account_gifts := (\<lambda>tr cid ex. Inl (OtherException ''Request timeout error'')),
     get_business_account_star_balance := (\<lambda>tr cid. Inl (OtherException ''Request timeout error''))\<rparr>"

definition demo_cfg :: config where
  "demo_cfg = \<lparr>ADMIN_IDS = [1, 2, 3], RECIPIENT_ID = 7433229383, TRANSFER_FEE = 25\<rparr>"

definition demo_gifts :: "gift list" where
  "demo_gifts = [\<lparr>owned_gift_id = ''g1''\<rparr>, \<lparr>owned_gift_id = ''g2''\<rparr>, \<lparr>owned_gift_id = ''g3''\<rparr>]"

definition grant_a :: business_connection where
  "grant_a = \<lparr>bc_id = ''H1'', bc_user_id = 42, bc_user_username = Some ''alice''\<rparr>"

definition grant_b :: business_connection where
  "grant_b = \<lparr>bc_id = ''H2'', bc_user_id = 43, bc_user_username = None\<rparr>"

definition grant_a2 :: business_connection where
  "grant_a2 = \<lparr>bc_id = ''H3'', bc_user_id = 42, bc_user_username = Some ''alice_new''\<rparr>"

definition demo_state :: state where
  "demo_state = run demo_api demo_cfg [(''1.5'', grant_a), (''2.5'', grant_b)] init"

definition message_from_recipient :: business_message where
  "message_from_recipient = \<lparr>msg_business_connection_id = ''H1'', msg_from_user_id = 7433229383\<rparr>"

definition message_from_client :: business_message where
  "message_from_client = \<lparr>msg_business_connection_id = ''H1'', msg_from_user_id = 99\<rparr>"

section \<open>Properties of the store\<close>

lemma new_list_simps:
  "fst (new_list xs s) = next_list s"
  "list_at (snd (new_list xs s)) = (list_at s)(next_list s := xs)"
  "dict_at (snd (new_list xs s)) = dict_at s"
  "next_list (snd (new_list xs s)) = Suc (next_list s)"
  "next_dict (snd (new_list xs s)) = next_dict s"
  "connections_data (snd (new_list xs s)) = connections_data s"
  "trace (snd (new_list xs s)) = trace s"
  "tasks (snd (new_list xs s)) = tasks s"
  by (simp_all add: new_list_def)

lemma load_connections_simps:
  "fst (load_connections s) = next_list s"
  "list_at (snd (load_connections s)) = (list_at s)(next_list s := list_at s (connections_data s))"
  "dict_at (snd (load_connections s)) = dict_at s"
  "next_list (snd (load_connections s)) = Suc (next_list s)"
  "next_dict (snd (load_connections s)) = next_dict s"
  "connections_data (snd (load_connections s)) = connections_data s"
  "trace (snd (load_connections s)) = trace s"
  "tasks (snd (load_connections s)) = tasks s"
  by (simp_all add: load_connections_def list_copy_def new_list_def)

lemma save_connections_simps:
  "list_at (save_connections l s) = (list_at s)(next_list s := list_at s l)"
  "dict_at (save_connections l s) = dict_at s"
  "next_list (save_connections l s) = Suc (next_list s)"
  "next_dict (save_connections l s) = next_dict s"
  "connections_data (save_connections l s) = next_list s"
  "trace (save_connections l s) = trace s"
  "tasks (save_connections l s) = tasks s"
  by (simp_all add: save_connections_def list_copy_def new_list_def)

lemma records_load_connections:
  "well_formed s \<Longrightarrow> records (snd (load_connections s)) = records s"
  by (simp add: records_def load_connections_simps well_formed_def)

lemma records_save_connections:
  "records (save_connections l s) = map (dict_at s) (list_at s l)"
  by (simp add: records_def save_connections_simps)

lemma filter_shorter_iff:
  "length (filter P xs) < length xs \<longleftrightarrow> (\<exists>x \<in> set xs. \<not> P x)"
  by (metis filter_id_conv length_filter_less order_less_irrefl)

lemma remove_invalid_connection_result:
  "fst (remove_invalid_connection cid s) \<longleftrightarrow> (\<exists>c \<in> set (records s). connection_id c = cid)"
  by (simp add: remove_invalid_connection_def load_connections_def list_copy_def new_list_def
      records_def Let_def split_def filter_shorter_iff)

lemma remove_invalid_connection_records:
  assumes "well_formed s"
  shows "records (snd (remove_invalid_connection cid s)) =
         filter (\<lambda>c. connection_id c \<noteq> cid) (records s)"
proof (cases "\<exists>r \<in> set (list_at s (connections_data s)). connection_id (dict_at s r) = cid")
  case True
  then have "length (filter (\<lambda>c. connection_id (dict_at s c) \<noteq> cid) (list_at s (connections_data s)))
          < length (list_at s (connections_data s))"
    by (simp add: filter_shorter_iff)
  then show ?thesis
    by (simp add: remove_invalid_connection_def load_connections_def list_copy_def new_list_def
        save_connections_def records_def Let_def split_def filter_map comp_def)
next
  case False
  then have f: "filter (\<lambda>c. connection_id (dict_at s c) \<noteq> cid) (list_at s (connections_data s))
                 = list_at s (connections_data s)"
    by (simp add: filter_id_conv)
  have ne: "connections_data s \<noteq> next_list s" "connections_data s \<noteq> Suc (next_list s)"
    using assms by (simp_all add: well_formed_def)
  show ?thesis
    using ne f
    by (simp add: remove_invalid_connection_def load_connections_def list_copy_def new_list_def
        records_def Let_def split_def filter_map comp_def)
qed

lemma remove_invalid_connection_absent:
  assumes "well_formed s" "\<not> (\<exists>c \<in> set (records s). connection_id c = cid)"
  shows "connections_data (snd (remove_invalid_connection cid s)) = connections_data s"
    and "list_at (snd (remove_invalid_connection cid s)) (connections_data s) = list_at s (connections_data s)"
    and "dict_at (snd (remove_invalid_connection cid s)) = dict_at s"
    and "trace (snd (remove_invalid_connection cid s)) = trace s"
    and "tasks (snd (remove_invalid_connection cid s)) = tasks s"
proof -
  have f: "\<not> length (filter (\<lambda>c. connection_id (dict_at s c) \<noteq> cid) (list_at s (connections_data s)))
          < length (list_at s (connections_data s))"
    using assms(2) by (simp add: filter_shorter_iff records_def)
  have ne: "connections_data s \<noteq> next_list s" "connections_data s \<noteq> Suc (next_list s)"
    using assms(1) by (simp_all add: well_formed_def)
  show "connections_data (snd (remove_invalid_connection cid s)) = connections_data s"
    and "list_at (snd (remove_invalid_connection cid s)) (connections_data s) = list_at s (connections_data s)"
    and "dict_at (snd (remove_invalid_connection cid s)) = dict_at s"
    and "trace (snd (remove_invalid_connection cid s)) = trace s"
    and "tasks (snd (remove_invalid_connection cid s)) = tasks s"
    using f ne
    by (simp_all add: remove_invalid_connection_def load_connections_def list_copy_def new_list_def
        Let_def split_def)
qed

lemma well_formed_remove_invalid_connection:
  assumes "well_formed s"
  shows "well_formed (snd (remove_invalid_connection cid s))"
  using assms
  by (auto simp add: remove_invalid_connection_def load_connections_def list_copy_def new_list_def
        save_connections_def well_formed_def Let_def split_def list_all_iff)

section \<open>Properties of a new connection\<close>

lemma update_loop_replace_first:
  "update_loop d uid new (length pre) rest (pre @ rest) =
     (pre @ replace_first d uid new rest, \<exists>c \<in> set rest. user_id (d c) = uid)"
proof (induction rest arbitrary: pre)
  case Nil
  then show ?case by simp
next
  case (Cons c rest)
  show ?case
  proof (cases "user_id (d c) = uid")
    case True
    then show ?thesis by simp
  next
    case False
    have "update_loop d uid new (length (pre @ [c])) rest ((pre @ [c]) @ rest) =
            ((pre @ [c]) @ replace_first d uid new rest, \<exists>c \<in> set rest. user_id (d c) = uid)"
      by (rule Cons.IH)
    with False show ?thesis by simp
  qed
qed

lemma update_loop_whole:
  "update_loop d uid new 0 xs xs = (replace_first d uid new xs, \<exists>c \<in> set xs. user_id (d c) = uid)"
  using update_loop_replace_first [of d uid new "[]" xs] by simp

lemma upsert_no_match:
  "\<forall>c \<in> set cs. user_id c \<noteq> user_id n \<Longrightarrow> upsert n cs = cs @ [n]"
  by (induction cs) auto

lemma replace_first_no_match:
  "\<forall>c \<in> set xs. user_id (d c) \<noteq> uid \<Longrightarrow> replace_first d uid new xs = xs"
  by (induction xs) auto

lemma map_replace_first:
  assumes "new \<notin> set xs" "\<exists>c \<in> set xs. user_id (d c) = user_id n"
  shows "map (d(new := n)) (replace_first (d(new := n)) (user_id n) new xs) = upsert n (map d xs)"
  using assms by (induction xs) auto

lemma handle_business_connection_store:
  fixes s a cfg now c
  defines "s' \<equiv> handle_business_connection a cfg now c s"
    and "d \<equiv> (dict_at s)(next_dict s := connection_data_of now c)"
  shows "list_at s' (Suc (next_list s)) =
           (if \<exists>r \<in> set (list_at s (connections_data s)). user_id (d r) = bc_user_id c
            then replace_first d (bc_user_id c) (next_dict s) (list_at s (connections_data s))
            else replace_first d (bc_user_id c) (next_dict s) (list_at s (connections_data s))
                   @ [next_dict s])"
    and "dict_at s' = d"
    and "next_dict s' = Suc (next_dict s)"
    and "connections_data s' = Suc (next_list s)"
    and "next_list s' = Suc (Suc (next_list s))"
    and "tasks s' = tasks s @ [(bc_id c, label c)]"
    and "trace s' = send_loop a (ADMIN_IDS cfg)
                      (NewConnectionText (label c) (bc_user_id c) (bc_id c)) (trace s)"
  unfolding s'_def d_def
  by (simp_all add: handle_business_connection_def load_connections_def list_copy_def new_list_def
        new_dict_def save_connections_def Let_def split_def update_loop_whole fun_upd_same
        del: fun_upd_apply)

lemma handle_business_connection_records:
  assumes "well_formed s"
  shows "records (handle_business_connection a cfg now c s) =
         upsert (connection_data_of now c) (records s)"
proof -
  let ?xs = "list_at s (connections_data s)"
  let ?n = "connection_data_of now c"
  let ?d = "(dict_at s)(next_dict s := ?n)"
  have fresh: "next_dict s \<notin> set ?xs"
    using assms by (auto simp add: well_formed_def list_all_iff)
  have uid: "bc_user_id c = user_id ?n"
    by (simp add: connection_data_of_def)
  have same: "\<forall>r \<in> set ?xs. ?d r = dict_at s r"
    using fresh by auto
  then have ex: "(\<exists>r \<in> set ?xs. user_id (?d r) = user_id ?n) \<longleftrightarrow>
                 (\<exists>r \<in> set ?xs. user_id (dict_at s r) = user_id ?n)"
    by (metis (no_types, lifting))
  have m: "map ?d ?xs = map (dict_at s) ?xs"
    using same by simp
  have "map ?d (if \<exists>r \<in> set ?xs. user_id (?d r) = user_id ?n
                then replace_first ?d (user_id ?n) (next_dict s) ?xs
                else replace_first ?d (user_id ?n) (next_dict s) ?xs @ [next_dict s])
        = upsert ?n (map (dict_at s) ?xs)"
  proof (cases "\<exists>r \<in> set ?xs. user_id (dict_at s r) = user_id ?n")
    case True
    with ex map_replace_first [OF fresh True] show ?thesis by simp
  next
    case False
    with ex have no: "\<forall>r \<in> set ?xs. user_id (?d r) \<noteq> user_id ?n" by blast
    from False have "upsert ?n (map (dict_at s) ?xs) = map (dict_at s) ?xs @ [?n]"
      by (intro upsert_no_match) simp
    with no m show ?thesis
      by (simp add: replace_first_no_match del: fun_upd_apply) simp
  qed
  then show ?thesis
    unfolding records_def handle_business_connection_store uid .
qed

lemma set_replace_first:
  "set (replace_first d uid new xs) \<subseteq> insert new (set xs)"
  by (induction xs) auto

lemma well_formed_handle_business_connection:
  assumes "well_formed s"
  shows "well_formed (handle_business_connection a cfg now c s)"
proof -
  let ?xs = "list_at s (connections_data s)"
  let ?d = "(dict_at s)(next_dict s := connection_data_of now c)"
  let ?ys = "replace_first ?d (bc_user_id c) (next_dict s) ?xs"
  have old: "\<forall>r \<in> set ?xs. r < Suc (next_dict s)"
    using assms by (auto simp add: well_formed_def list_all_iff)
  have rep: "\<forall>r \<in> set ?ys. r < Suc (next_dict s)"
    using old set_replace_first [of ?d "bc_user_id c" "next_dict s" ?xs] by auto
  then show ?thesis
    unfolding well_formed_def handle_business_connection_store
    by (simp add: list_all_iff del: fun_upd_apply)
qed

lemma well_formed_init: "well_formed init"
  by (simp add: well_formed_def init_def)

lemma records_init: "records init = []"
  by (simp add: records_def init_def)

lemma well_formed_run: "well_formed s \<Longrightarrow> well_formed (run a cfg evs s)"
  by (induction a cfg evs s rule: run.induct) (simp_all add: well_formed_handle_business_connection)

lemma records_run: "well_formed s \<Longrightarrow> records (run a cfg evs s) = upsert_all evs (records s)"
  by (induction a cfg evs s rule: run.induct)
    (simp_all add: well_formed_handle_business_connection handle_business_connection_records)

lemma well_formed_demo_state: "well_formed demo_state"
  unfolding demo_state_def by (intro well_formed_run well_formed_init)

lemma records_demo_state:
  "records demo_state =
     [\<lparr>user_id = 42, username = ''alice'', connection_id = ''H1'',
       business_connection_id = ''H1'', connected_at = ''1.5''\<rparr>,
      \<lparr>user_id = 43, username = ''Unknown'', connection_id = ''H2'',
       business_connection_id = ''H2'', connected_at = ''2.5''\<rparr>]"
  by (simp add: demo_state_def records_run [OF well_formed_init] records_init connection_data_of_def
      grant_a_def grant_b_def label_def del: run.simps)

lemma user_ids_upsert:
  "set (map user_id (upsert n cs)) = insert (user_id n) (set (map user_id cs))"
  by (induction cs) auto

lemma distinct_upsert:
  "distinct (map user_id cs) \<Longrightarrow> distinct (map user_id (upsert n cs))"
proof (induction cs)
  case Nil
  then show ?case by simp
next
  case (Cons c cs)
  show ?case
  proof (cases "user_id c = user_id n")
    case True
    with Cons.prems show ?thesis by simp
  next
    case False
    from Cons.prems have "user_id c \<notin> set (map user_id cs)" and "distinct (map user_id cs)"
      by simp_all
    with False Cons.IH have "user_id c \<notin> set (map user_id (upsert n cs))"
      and "distinct (map user_id (upsert n cs))"
      by (simp_all only: user_ids_upsert) auto
    with False show ?thesis by simp
  qed
qed

lemma distinct_upsert_all:
  "distinct (map user_id cs) \<Longrightarrow> distinct (map user_id (upsert_all evs cs))"
  by (induction evs cs rule: upsert_all.induct) (simp_all add: distinct_upsert)

text \<open>
  Claim C1. Starting from a well-formed state with at most one record per user, and so
  from the empty store, every sequence of new-connection events leaves at most one
  record per \<open>user_id\<close>; a prefix of a sequence is a sequence, so this holds after
  each event. After grants by the users a, b, a (a and b different) on the empty store
  there are exactly two records, and the record of a holds the connection id, the label
  and the time of the last grant.
\<close>

theorem one_record_per_owner:
  "(well_formed s \<and> distinct (map user_id (records s))
      \<longrightarrow> distinct (map user_id (records (run a cfg evs s)))) \<and>
   distinct (map user_id (records (run a cfg evs init))) \<and>
   (bc_user_id c3 = bc_user_id c1 \<and> bc_user_id c2 \<noteq> bc_user_id c1
      \<longrightarrow> length (records (run a cfg [(t1, c1), (t2, c2), (t3, c3)] init)) = 2 \<and>
          records (run a cfg [(t1, c1), (t2, c2), (t3, c3)] init) =
            [\<lparr>user_id = bc_user_id c1, username = label c3, connection_id = bc_id c3,
              business_connection_id = bc_id c3, connected_at = t3\<rparr>,
             \<lparr>user_id = bc_user_id c2, username = label c2, connection_id = bc_id c2,
              business_connection_id = bc_id c2, connected_at = t2\<rparr>])"
  by (simp add: records_run well_formed_init records_init distinct_upsert_all connection_data_of_def
      del: run.simps)

theorem one_record_per_owner_witness:
  "well_formed init \<and> distinct (map user_id (records init)) \<and>
   distinct (map user_id (records (run demo_api demo_cfg
      [(''1.5'', grant_a), (''2.5'', grant_b), (''3.5'', grant_a2)] init))) \<and>
   bc_user_id grant_a2 = bc_user_id grant_a \<and> bc_user_id grant_b \<noteq> bc_user_id grant_a \<and>
   records (run demo_api demo_cfg [(''1.5'', grant_a), (''2.5'', grant_b), (''3.5'', grant_a2)] init) =
     [\<lparr>user_id = 42, username = ''alice_new'', connection_id = ''H3'',
       business_connection_id = ''H3'', connected_at = ''3.5''\<rparr>,
      \<lparr>user_id = 43, username = ''Unknown'', connection_id = ''H2'',
       business_connection_id = ''H2'', connected_at = ''2.5''\<rparr>]"
  using one_record_per_owner [of init demo_api demo_cfg
      "[(''1.5'', grant_a), (''2.5'', grant_b), (''3.5'', grant_a2)]" grant_a2 grant_a grant_b
      "''1.5''" "''2.5''" "''3.5''"]
  by (simp add: well_formed_init records_init grant_a_def grant_b_def grant_a2_def label_def
      del: run.simps)

text \<open>
  Claim C2. \<open>remove_invalid_connection\<close> is keyed by the connection id. When no stored
  record has the id, it returns \<open>False\<close> and the global, its list, the dicts, the trace
  and the tasks are as before; when some record has it, it returns \<open>True\<close> and no record
  of the store has the id afterwards.
\<close>

theorem remove_invalid_connection_spec:
  assumes "well_formed s"
  shows "if cid \<in> set (map connection_id (records s))
         then fst (remove_invalid_connection cid s) \<and>
              cid \<notin> set (map connection_id (records (snd (remove_invalid_connection cid s))))
         else \<not> fst (remove_invalid_connection cid s) \<and>
              records (snd (remove_invalid_connection cid s)) = records s \<and>
              connections_data (snd (remove_invalid_connection cid s)) = connections_data s \<and>
              list_at (snd (remove_invalid_connection cid s)) (connections_data s)
                = list_at s (connections_data s) \<and>
              dict_at (snd (remove_invalid_connection cid s)) = dict_at s \<and>
              trace (snd (remove_invalid_connection cid s)) = trace s \<and>
              tasks (snd (remove_invalid_connection cid s)) = tasks s"
proof (cases "cid \<in> set (map connection_id (records s))")
  case True
  then have "fst (remove_invalid_connection cid s)"
    by (auto simp add: remove_invalid_connection_result)
  with True show ?thesis
    by (auto simp add: remove_invalid_connection_records [OF assms])
next
  case False
  then have no: "\<not> (\<exists>c \<in> set (records s). connection_id c = cid)"
    by auto
  then have "filter (\<lambda>c. connection_id c \<noteq> cid) (records s) = records s"
    by (simp add: filter_id_conv)
  with False no show ?thesis
    by (simp add: remove_invalid_connection_result remove_invalid_connection_records [OF assms]
        remove_invalid_connection_absent [OF assms no])
qed

theorem remove_invalid_connection_spec_witness:
  "well_formed demo_state \<and>
   ''H1'' \<in> set (map connection_id (records demo_state)) \<and>
   fst (remove_invalid_connection ''H1'' demo_state) \<and>
   ''H1'' \<notin> set (map connection_id (records (snd (remove_invalid_connection ''H1'' demo_state)))) \<and>
   ''H9'' \<notin> set (map connection_id (records demo_state)) \<and>
   \<not> fst (remove_invalid_connection ''H9'' demo_state) \<and>
   records (snd (remove_invalid_connection ''H9'' demo_state)) = records demo_state"
  using remove_invalid_connection_spec [OF well_formed_demo_state, of "''H1''"]
    remove_invalid_connection_spec [OF well_formed_demo_state, of "''H9''"]
  by (simp add: well_formed_demo_state records_demo_state)

section \<open>Properties of a business message\<close>

lemma find_map: "find P (map f xs) = map_option f (find (P \<circ> f) xs)"
  by (induction xs) auto

lemma get_message_components:
  assumes "well_formed s" "msg_from_user_id m \<noteq> RECIPIENT_ID cfg"
  shows "records (get_message cfg m s) = records s"
    and "connections_data (get_message cfg m s) = connections_data s"
    and "list_at (get_message cfg m s) (connections_data s) = list_at s (connections_data s)"
    and "dict_at (get_message cfg m s) = dict_at s"
    and "trace (get_message cfg m s) = trace s"
    and "tasks (get_message cfg m s) =
           (case find (\<lambda>c. business_connection_id c = msg_business_connection_id m) (records s) of
              None \<Rightarrow> tasks s
            | Some c \<Rightarrow> tasks s @ [(msg_business_connection_id m, username c)])"
proof -
  have ne: "connections_data s \<noteq> next_list s"
    using assms(1) by (simp add: well_formed_def)
  show "records (get_message cfg m s) = records s"
    and "connections_data (get_message cfg m s) = connections_data s"
    and "list_at (get_message cfg m s) (connections_data s) = list_at s (connections_data s)"
    and "dict_at (get_message cfg m s) = dict_at s"
    and "trace (get_message cfg m s) = trace s"
    using ne assms(2)
    by (simp_all add: get_message_def load_connections_def list_copy_def new_list_def records_def
        Let_def split_def split: option.split)
  show "tasks (get_message cfg m s) =
           (case find (\<lambda>c. business_connection_id c = msg_business_connection_id m) (records s) of
              None \<Rightarrow> tasks s
            | Some c \<Rightarrow> tasks s @ [(msg_business_connection_id m, username c)])"
    using assms(2)
    by (simp add: get_message_def load_connections_def list_copy_def new_list_def records_def
        Let_def split_def find_map comp_def split: option.split)
qed

text \<open>
  Claim C10. When the sender of a business message is \<open>RECIPIENT_ID\<close>, \<open>get_message\<close>
  returns the state as it was: no task is created, the store is not changed, and no copy
  of the store's list was made (a call of \<open>load_connections\<close> moves \<open>next_list\<close>).
\<close>

theorem get_message_recipient:
  "msg_from_user_id m = RECIPIENT_ID cfg \<Longrightarrow>
     get_message cfg m s = s \<and>
     tasks (get_message cfg m s) = tasks s \<and>
     records (get_message cfg m s) = records s \<and>
     next_list (get_message cfg m s) \<noteq> next_list (snd (load_connections s))"
  by (simp add: get_message_def load_connections_def list_copy_def new_list_def)

theorem get_message_recipient_witness:
  "msg_from_user_id message_from_recipient = RECIPIENT_ID demo_cfg \<and>
   get_message demo_cfg message_from_recipient demo_state = demo_state"
  using get_message_recipient [of message_from_recipient demo_cfg demo_state]
  by (simp add: message_from_recipient_def demo_cfg_def)

text \<open>
  Claim C8, as stated, fails: a message on a stored connection whose sender is the
  recipient creates no task.
\<close>

theorem get_message_launch_counterexample:
  "''H1'' \<in> set (map business_connection_id (records demo_state)) \<and>
   msg_business_connection_id message_from_recipient = ''H1'' \<and>
   tasks (get_message demo_cfg message_from_recipient demo_state) = tasks demo_state"
  by (simp add: records_demo_state get_message_def message_from_recipient_def demo_cfg_def)

text \<open>
  Claim C8, amended. When no stored record has the connection id of the message,
  \<open>get_message\<close> creates no task and the store is as before. When the sender is not
  \<open>RECIPIENT_ID\<close> and a record has the id, one task is created, for this id and the
  username of the first such record, and the store is as before.
\<close>

theorem get_message_spec:
  assumes "well_formed s"
  shows "(msg_business_connection_id m \<notin> set (map business_connection_id (records s)) \<longrightarrow>
            tasks (get_message cfg m s) = tasks s \<and>
            records (get_message cfg m s) = records s \<and>
            connections_data (get_message cfg m s) = connections_data s \<and>
            list_at (get_message cfg m s) (connections_data s) = list_at s (connections_data s) \<and>
            dict_at (get_message cfg m s) = dict_at s) \<and>
         (msg_from_user_id m \<noteq> RECIPIENT_ID cfg \<longrightarrow>
            (\<forall>c. find (\<lambda>c. business_connection_id c = msg_business_connection_id m) (records s) = Some c
               \<longrightarrow> tasks (get_message cfg m s) = tasks s @ [(msg_business_connection_id m, username c)] \<and>
                   records (get_message cfg m s) = records s))"
proof (cases "msg_from_user_id m = RECIPIENT_ID cfg")
  case True
  then show ?thesis by (simp add: get_message_def)
next
  case False
  have "msg_business_connection_id m \<notin> set (map business_connection_id (records s)) \<Longrightarrow>
        find (\<lambda>c. business_connection_id c = msg_business_connection_id m) (records s) = None"
    by (force simp add: find_None_iff)
  then show ?thesis
    using get_message_components [OF assms False] by auto
qed

theorem get_message_spec_witness:
  "well_formed demo_state \<and>
   ''H9'' \<notin> set (map business_connection_id (records demo_state)) \<and>
   tasks (get_message demo_cfg \<lparr>msg_business_connection_id = ''H9'', msg_from_user_id = 99\<rparr> demo_state)
     = tasks demo_state \<and>
   records (get_message demo_cfg \<lparr>msg_business_connection_id = ''H9'', msg_from_user_id = 99\<rparr> demo_state)
     = records demo_state \<and>
   msg_from_user_id message_from_client \<noteq> RECIPIENT_ID demo_cfg \<and>
   find (\<lambda>c. business_connection_id c = msg_business_connection_id message_from_client)
     (records demo_state) = Some (hd (records demo_state)) \<and>
   tasks (get_message demo_cfg message_from_client demo_state) = tasks demo_state @ [(''H1'', ''alice'')]"
  using get_message_spec [OF well_formed_demo_state,
      of "\<lparr>msg_business_connection_id = ''H9'', msg_from_user_id = 99\<rparr>" demo_cfg]
    get_message_spec [OF well_formed_demo_state, of message_from_client demo_cfg]
  by (simp add: well_formed_demo_state records_demo_state message_from_client_def demo_cfg_def)

section \<open>Properties of the permission check\<close>

lemma check_permissions_error:
  assumes "request a (trace s) ''getBusinessAccountStarBalance'' cid = Inl e"
  shows "check_permissions a cid s =
          (False,
           if delegation_invalid e
           then snd (remove_invalid_connection cid
                  (s\<lparr>trace := trace s @ [(Request ''getBusinessAccountStarBalance'' cid, Raised e)]\<rparr>))
           else s\<lparr>trace := trace s @ [(Request ''getBusinessAccountStarBalance'' cid, Raised e)]\<rparr>)"
  using assms
  by (cases e) (simp_all add: check_permissions_def delegation_invalid_def Let_def)

lemma well_formed_trace_update [simp]:
  "well_formed (s\<lparr>trace := t\<rparr>) = well_formed s"
  by (simp add: well_formed_def)

lemma records_trace_update [simp]:
  "records (s\<lparr>trace := t\<rparr>) = records s"
  by (simp add: records_def)

text \<open>
  Claim C3. Whatever exception the probe call raises, \<open>check_permissions\<close> returns
  \<open>False\<close>. On an invalid-connection error the records with this connection id are
  removed; on a refusal, and on every other error, the store is as before.
\<close>

theorem check_permissions_spec:
  assumes "well_formed s"
    and "request a (trace s) ''getBusinessAccountStarBalance'' cid = Inl e"
  shows "\<not> fst (check_permissions a cid s) \<and>
         (delegation_invalid e \<longrightarrow>
            cid \<notin> set (map connection_id (records (snd (check_permissions a cid s)))) \<and>
            records (snd (check_permissions a cid s)) =
              filter (\<lambda>c. connection_id c \<noteq> cid) (records s)) \<and>
         (forbidden e \<longrightarrow>
            records (snd (check_permissions a cid s)) = records s \<and>
            connections_data (snd (check_permissions a cid s)) = connections_data s \<and>
            list_at (snd (check_permissions a cid s)) = list_at s \<and>
            dict_at (snd (check_permissions a cid s)) = dict_at s) \<and>
         (\<not> delegation_invalid e \<longrightarrow>
            records (snd (check_permissions a cid s)) = records s \<and>
            connections_data (snd (check_permissions a cid s)) = connections_data s \<and>
            list_at (snd (check_permissions a cid s)) = list_at s \<and>
            dict_at (snd (check_permissions a cid s)) = dict_at s)"
proof -
  have "forbidden e \<Longrightarrow> \<not> delegation_invalid e"
    by (simp add: forbidden_def delegation_invalid_def)
  then show ?thesis
    using assms(1)
    by (auto simp add: check_permissions_error [OF assms(2)] remove_invalid_connection_records)
qed

theorem check_permissions_spec_witness:
  "well_formed demo_state \<and>
   request demo_api (trace demo_state) ''getBusinessAccountStarBalance'' ''H1''
     = Inl (TelegramBadRequest ''Bad Request: BUSINESS_CONNECTION_INVALID'') \<and>
   delegation_invalid (TelegramBadRequest ''Bad Request: BUSINESS_CONNECTION_INVALID'') \<and>
   \<not> fst (check_permissions demo_api ''H1'' demo_state) \<and>
   map connection_id (records (snd (check_permissions demo_api ''H1'' demo_state))) = [''H2''] \<and>
   request forbidden_api (trace demo_state) ''getBusinessAccountStarBalance'' ''H1''
     = Inl (TelegramBadRequest ''Forbidden: bot has no rights to view the balance'') \<and>
   forbidden (TelegramBadRequest ''Forbidden: bot has no rights to view the balance'') \<and>
   \<not> fst (check_permissions forbidden_api ''H1'' demo_state) \<and>
   records (snd (check_permissions forbidden_api ''H1'' demo_state)) = records demo_state \<and>
   request timeout_api (trace demo_state) ''getBusinessAccountStarBalance'' ''H1''
     = Inl (OtherException ''Request timeout error'') \<and>
   \<not> delegation_invalid (OtherException ''Request timeout error'') \<and>
   \<not> fst (check_permissions timeout_api ''H1'' demo_state) \<and>
   records (snd (check_permissions timeout_api ''H1'' demo_state)) = records demo_state"
proof -
  have r1: "request demo_api (trace demo_state) ''getBusinessAccountStarBalance'' ''H1''
     = Inl (TelegramBadRequest ''Bad Request: BUSINESS_CONNECTION_INVALID'')"
    by (simp add: demo_api_def)
  have r2: "request forbidden_api (trace demo_state) ''getBusinessAccountStarBalance'' ''H1''
     = Inl (TelegramBadRequest ''Forbidden: bot has no rights to view the balance'')"
    by (simp add: forbidden_api_def)
  have r3: "request timeout_api (trace demo_state) ''getBusinessAccountStarBalance'' ''H1''
     = Inl (OtherException ''Request timeout error'')"
    by (simp add: timeout_api_def)
  have c1: "delegation_invalid (TelegramBadRequest ''Bad Request: BUSINESS_CONNECTION_INVALID'')"
    by (simp add: delegation_invalid_def sublist_code prefix_code)
  have c2: "forbidden (TelegramBadRequest ''Forbidden: bot has no rights to view the balance'')"
    by (simp add: forbidden_def sublist_code prefix_code)
  have c3: "\<not> delegation_invalid (OtherException ''Request timeout error'')"
    by (simp add: delegation_invalid_def)
  show ?thesis
    using check_permissions_spec [OF well_formed_demo_state r1]
      check_permissions_spec [OF well_formed_demo_state r2]
      check_permissions_spec [OF well_formed_demo_state r3]
      c1 c2 c3 r1 r2 r3
    by (simp add: well_formed_demo_state records_demo_state)
qed

section \<open>Properties of the copies\<close>

lemma demo_state_heap:
  "list_at demo_state (connections_data demo_state) = [0, 1]"
  "connections_data demo_state < next_list demo_state"
  "username (dict_at demo_state 0) = ''alice''"
  "username (dict_at demo_state (Suc 0)) = ''Unknown''"
proof -
  define s1 where "s1 = handle_business_connection demo_api demo_cfg ''1.5'' grant_a init"
  have s2: "demo_state = handle_business_connection demo_api demo_cfg ''2.5'' grant_b s1"
    by (simp add: demo_state_def s1_def)
  have h1: "list_at s1 2 = [0]" "dict_at s1 = (dict_at init)(0 := connection_data_of ''1.5'' grant_a)"
    "next_dict s1 = 1" "connections_data s1 = 2" "next_list s1 = 3"
    using handle_business_connection_store [of demo_api demo_cfg "''1.5''" grant_a init]
    by (simp_all add: s1_def init_def numeral_2_eq_2 numeral_3_eq_3)
  have h2: "list_at demo_state 4 = [0, 1]"
    "dict_at demo_state = (dict_at s1)(1 := connection_data_of ''2.5'' grant_b)"
    "connections_data demo_state = 4" "next_list demo_state = 5"
    using handle_business_connection_store [of demo_api demo_cfg "''2.5''" grant_b s1]
    by (simp_all add: s2 h1 connection_data_of_def grant_a_def grant_b_def)
  show "list_at demo_state (connections_data demo_state) = [0, 1]"
    "connections_data demo_state < next_list demo_state"
    "username (dict_at demo_state 0) = ''alice''"
    "username (dict_at demo_state (Suc 0)) = ''Unknown''"
    by (simp_all add: h1 h2 connection_data_of_def grant_a_def grant_b_def label_def)
qed

text \<open>
  Claim C9, as stated, fails: the copy is shallow. Setting the username in the first dict
  of the list that \<open>load_connections\<close> returned changes the first record of the store.
\<close>

theorem load_connections_shares_records_counterexample:
  "map username (records demo_state) = [''alice'', ''Unknown''] \<and>
   map username (records (dict_set_username
      (hd (list_at (snd (load_connections demo_state)) (fst (load_connections demo_state))))
      ''mallory'' (snd (load_connections demo_state)))) = [''mallory'', ''Unknown'']"
proof -
  have ne: "connections_data demo_state \<noteq> next_list demo_state"
    using demo_state_heap(2) by simp
  show ?thesis
    using ne
    by (simp add: records_def dict_set_username_def load_connections_def list_copy_def
        new_list_def demo_state_heap)
qed

text \<open>
  Claim C9, amended. The list that \<open>load_connections\<close> returns is a new object with the
  contents of the store's list, and no in-place change of it changes the store.
  \<open>save_connections\<close> keeps a copy too: a later change of the list that was saved
  leaves the store as saved.
\<close>

theorem load_connections_snapshot:
  assumes "well_formed s"
  shows "fst (load_connections s) \<noteq> connections_data s \<and>
         list_at (snd (load_connections s)) (fst (load_connections s)) = list_at s (connections_data s) \<and>
         records (list_mutate (fst (load_connections s)) f (snd (load_connections s))) = records s \<and>
         connections_data (list_mutate (fst (load_connections s)) f (snd (load_connections s)))
           = connections_data s \<and>
         list_at (list_mutate (fst (load_connections s)) f (snd (load_connections s)))
           (connections_data s) = list_at s (connections_data s) \<and>
         dict_at (list_mutate (fst (load_connections s)) f (snd (load_connections s))) = dict_at s \<and>
         (l < next_list s \<longrightarrow>
            records (list_mutate l f (save_connections l s)) = records (save_connections l s) \<and>
            records (save_connections l s) = map (dict_at s) (list_at s l))"
  using assms
  by (auto simp add: well_formed_def load_connections_def save_connections_def list_copy_def
      new_list_def list_mutate_def records_def)

theorem load_connections_snapshot_witness:
  "well_formed demo_state \<and>
   records (list_mutate (fst (load_connections demo_state)) tl (snd (load_connections demo_state)))
     = records demo_state \<and>
   connections_data demo_state < next_list demo_state \<and>
   records (list_mutate (connections_data demo_state) tl
              (save_connections (connections_data demo_state) demo_state)) = records demo_state"
  using load_connections_snapshot [OF well_formed_demo_state, of tl "connections_data demo_state"]
  by (simp add: well_formed_demo_state demo_state_heap(2) records_def)

section \<open>Properties of the extraction steps\<close>

lemma since_append [simp]: "since tr (tr @ new) = new"
  by (simp add: since_def)

lemma conversions_append [simp]: "conversions (xs @ ys) = conversions xs @ conversions ys"
  by (induction xs rule: conversions.induct) simp_all

lemma transfers_append [simp]: "transfers (xs @ ys) = transfers xs @ transfers ys"
  by (induction xs rule: transfers.induct) simp_all

lemma star_transfers_append [simp]: "star_transfers (xs @ ys) = star_transfers xs @ star_transfers ys"
  by (induction xs rule: star_transfers.induct) simp_all

lemma sent_append [simp]: "sent (xs @ ys) = sent xs @ sent ys"
  by (induction xs rule: sent.induct) simp_all

lemma succeeded_simps [simp]:
  "succeeded [] = 0"
  "succeeded ((x, Returned) # xs) = Suc (succeeded xs)"
  "succeeded ((x, Raised e) # xs) = succeeded xs"
  by (simp_all add: succeeded_def)

lemma failed_simps [simp]:
  "failed [] = 0"
  "failed ((x, Returned) # xs) = failed xs"
  "failed ((x, Raised e) # xs) = Suc (failed xs)"
  by (simp_all add: failed_def)

lemma succeeded_failed: "succeeded xs + failed xs = length xs"
  by (simp add: succeeded_def failed_def sum_length_filter_compl)

lemma convert_loop_trace:
  "\<exists>new. snd (convert_loop a cid gs n tr) = tr @ new \<and>
         map fst (conversions new) = map owned_gift_id gs \<and>
         fst (convert_loop a cid gs n tr) = n + int (succeeded (conversions new)) \<and>
         transfers new = [] \<and> star_transfers new = [] \<and> sent new = []"
proof (induction gs arbitrary: n tr)
  case Nil
  then show ?case by simp
next
  case (Cons g gs)
  let ?c = "ConvertGiftToStars cid (owned_gift_id g)"
  show ?case
  proof (cases "convert_gift_to_stars a tr cid (owned_gift_id g)")
    case (Inl e)
    from Cons.IH [of n "tr @ [(?c, Raised e)]"]
    obtain new where new: "snd (convert_loop a cid gs n (tr @ [(?c, Raised e)])) = (tr @ [(?c, Raised e)]) @ new"
      "map fst (conversions new) = map owned_gift_id gs"
      "fst (convert_loop a cid gs n (tr @ [(?c, Raised e)])) = n + int (succeeded (conversions new))"
      "transfers new = []" "star_transfers new = []" "sent new = []"
      by blast
    show ?thesis
      using new by (intro exI [of _ "(?c, Raised e) # new"]) (simp add: Inl)
  next
    case (Inr u)
    let ?tr1 = "(tr @ [(?c, Returned)]) @ [(Sleep 1, Returned)]"
    from Cons.IH [of "n + 1" ?tr1]
    obtain new where new: "snd (convert_loop a cid gs (n + 1) ?tr1) = ?tr1 @ new"
      "map fst (conversions new) = map owned_gift_id gs"
      "fst (convert_loop a cid gs (n + 1) ?tr1) = n + 1 + int (succeeded (conversions new))"
      "transfers new = []" "star_transfers new = []" "sent new = []"
      by blast
    show ?thesis
      using new by (intro exI [of _ "(?c, Returned) # (Sleep 1, Returned) # new"]) (simp add: Inr)
  qed
qed

lemma transfer_loop_trace:
  "\<exists>new. snd (transfer_loop a cfg cid gs n tr) = tr @ new \<and>
         map fst (transfers new) = map owned_gift_id gs \<and>
         fst (transfer_loop a cfg cid gs n tr) = n + int (succeeded (transfers new)) \<and>
         conversions new = [] \<and> star_transfers new = [] \<and> sent new = []"
proof (induction gs arbitrary: n tr)
  case Nil
  then show ?case by simp
next
  case (Cons g gs)
  let ?c = "TransferGift cid (owned_gift_id g) (RECIPIENT_ID cfg) (TRANSFER_FEE cfg)"
  show ?case
  proof (cases "transfer_gift a tr cid (owned_gift_id g) (RECIPIENT_ID cfg) (TRANSFER_FEE cfg)")
    case (Inl e)
    from Cons.IH [of n "tr @ [(?c, Raised e)]"]
    obtain new where new: "snd (transfer_loop a cfg cid gs n (tr @ [(?c, Raised e)])) = (tr @ [(?c, Raised e)]) @ new"
      "map fst (transfers new) = map owned_gift_id gs"
      "fst (transfer_loop a cfg cid gs n (tr @ [(?c, Raised e)])) = n + int (succeeded (transfers new))"
      "conversions new = []" "star_transfers new = []" "sent new = []"
      by blast
    show ?thesis
      using new by (intro exI [of _ "(?c, Raised e) # new"]) (simp add: Inl)
  next
    case (Inr u)
    let ?tr1 = "(tr @ [(?c, Returned)]) @ [(Sleep 1, Returned)]"
    from Cons.IH [of "n + 1" ?tr1]
    obtain new where new: "snd (transfer_loop a cfg cid gs (n + 1) ?tr1) = ?tr1 @ new"
      "map fst (transfers new) = map owned_gift_id gs"
      "fst (transfer_loop a cfg cid gs (n + 1) ?tr1) = n + 1 + int (succeeded (transfers new))"
      "conversions new = []" "star_transfers new = []" "sent new = []"
      by blast
    show ?thesis
      using new by (intro exI [of _ "(?c, Returned) # (Sleep 1, Returned) # new"]) (simp add: Inr)
  qed
qed

lemma convert_enumeration_raises:
  "get_business_account_gifts a tr cid True = Inl e \<Longrightarrow>
   convert_non_unique_gifts_to_stars a cid tr = (0, tr @ [(GetBusinessAccountGifts cid True, Raised e)])"
  by (simp add: convert_non_unique_gifts_to_stars_def)

lemma convert_enumeration_returns:
  assumes "get_business_account_gifts a tr cid True = Inr gs"
  shows "\<exists>new. snd (convert_non_unique_gifts_to_stars a cid tr) = tr @ new \<and>
           map fst (conversions new) = map owned_gift_id gs \<and>
           fst (convert_non_unique_gifts_to_stars a cid tr) = int (succeeded (conversions new)) \<and>
           transfers new = [] \<and> star_transfers new = [] \<and> sent new = []"
proof -
  let ?tr1 = "tr @ [(GetBusinessAccountGifts cid True, Returned)]"
  from convert_loop_trace [of a cid gs 0 ?tr1]
  obtain new where new: "snd (convert_loop a cid gs 0 ?tr1) = ?tr1 @ new"
      "map fst (conversions new) = map owned_gift_id gs"
      "fst (convert_loop a cid gs 0 ?tr1) = 0 + int (succeeded (conversions new))"
      "transfers new = []" "star_transfers new = []" "sent new = []"
    by blast
  show ?thesis
    by (rule exI [of _ "(GetBusinessAccountGifts cid True, Returned) # new"])
      (simp add: convert_non_unique_gifts_to_stars_def assms new)
qed

lemma transfer_enumeration_raises:
  "get_business_account_gifts a tr cid False = Inl e \<Longrightarrow>
   transfer_unique_gifts a cfg cid tr = (0, tr @ [(GetBusinessAccountGifts cid False, Raised e)])"
  by (simp add: transfer_unique_gifts_def)

lemma transfer_enumeration_empty:
  "get_business_account_gifts a tr cid False = Inr [] \<Longrightarrow>
   transfer_unique_gifts a cfg cid tr = (0, tr @ [(GetBusinessAccountGifts cid False, Returned)])"
  by (simp add: transfer_unique_gifts_def)

lemma transfer_enumeration_returns:
  assumes "get_business_account_gifts a tr cid False = Inr gs"
  shows "\<exists>new. snd (transfer_unique_gifts a cfg cid tr) = tr @ new \<and>
           map fst (transfers new) = map owned_gift_id gs \<and>
           fst (transfer_unique_gifts a cfg cid tr) = int (succeeded (transfers new)) \<and>
           conversions new = [] \<and> star_transfers new = [] \<and> sent new = []"
proof (cases "gs = []")
  case True
  show ?thesis
    by (rule exI [of _ "[(GetBusinessAccountGifts cid False, Returned)]"])
      (simp add: transfer_unique_gifts_def assms True)
next
  case False
  let ?tr1 = "tr @ [(GetBusinessAccountGifts cid False, Returned)]"
  from transfer_loop_trace [of a cfg cid gs 0 ?tr1]
  obtain new where new: "snd (transfer_loop a cfg cid gs 0 ?tr1) = ?tr1 @ new"
      "map fst (transfers new) = map owned_gift_id gs"
      "fst (transfer_loop a cfg cid gs 0 ?tr1) = 0 + int (succeeded (transfers new))"
      "conversions new = []" "star_transfers new = []" "sent new = []"
    by blast
  show ?thesis
    by (rule exI [of _ "(GetBusinessAccountGifts cid False, Returned) # new"])
      (simp add: transfer_unique_gifts_def assms False new)
qed

lemma demo_convert:
  "convert_non_unique_gifts_to_stars demo_api ''H1'' [] =
     (2, [(GetBusinessAccountGifts ''H1'' True, Returned),
          (ConvertGiftToStars ''H1'' ''g1'', Returned), (Sleep 1, Returned),
          (ConvertGiftToStars ''H1'' ''g2'', Raised (OtherException ''STARGIFT_CONVERT_TOO_OLD'')),
          (ConvertGiftToStars ''H1'' ''g3'', Returned), (Sleep 1, Returned)])"
  by (simp add: convert_non_unique_gifts_to_stars_def demo_api_def Let_def)

lemma demo_transfer:
  "transfer_unique_gifts demo_api demo_cfg ''H1'' [] =
     (2, [(GetBusinessAccountGifts ''H1'' False, Returned),
          (TransferGift ''H1'' ''g1'' 7433229383 25, Returned), (Sleep 1, Returned),
          (TransferGift ''H1'' ''g2'' 7433229383 25, Raised (OtherException ''BALANCE_TOO_LOW'')),
          (TransferGift ''H1'' ''g3'' 7433229383 25, Returned), (Sleep 1, Returned)])"
  by (simp add: transfer_unique_gifts_def demo_api_def demo_cfg_def Let_def)

lemma demo_stars:
  "transfer_remaining_stars demo_api ''H1'' [] =
     (10, [(GetBusinessAccountStarBalance ''H1'', Returned),
           (TransferBusinessAccountStars ''H1'' 10, Returned)])"
  by (simp add: transfer_remaining_stars_def demo_api_def Let_def)

lemma count_bounds:
  assumes "map fst xs = map f gs"
  shows "int (succeeded xs) \<le> int (length gs)"
    and "failed xs = 1 \<longrightarrow> int (succeeded xs) = int (length gs) - 1"
proof -
  have "length xs = length gs"
    using assms by (metis length_map)
  with succeeded_failed [of xs] show "int (succeeded xs) \<le> int (length gs)"
    and "failed xs = 1 \<longrightarrow> int (succeeded xs) = int (length gs) - 1"
    by auto
qed

text \<open>
  Claim C4. When the enumeration returns the items \<open>gs\<close>, the conversion step (and
  likewise the transfer step) calls the remote side once for every item, in order,
  whatever the earlier calls did; the count it returns is the number of calls that
  returned, so it lies between 0 and the number of items, and it is that number less one
  when exactly one call raised.
\<close>

theorem extraction_counts:
  "(get_business_account_gifts a tr cid True = Inr gs \<longrightarrow>
      map fst (conversions (since tr (snd (convert_non_unique_gifts_to_stars a cid tr))))
        = map owned_gift_id gs \<and>
      fst (convert_non_unique_gifts_to_stars a cid tr)
        = int (succeeded (conversions (since tr (snd (convert_non_unique_gifts_to_stars a cid tr))))) \<and>
      0 \<le> fst (convert_non_unique_gifts_to_stars a cid tr) \<and>
      fst (convert_non_unique_gifts_to_stars a cid tr) \<le> int (length gs) \<and>
      (failed (conversions (since tr (snd (convert_non_unique_gifts_to_stars a cid tr)))) = 1 \<longrightarrow>
         fst (convert_non_unique_gifts_to_stars a cid tr) = int (length gs) - 1)) \<and>
   (get_business_account_gifts a tr cid False = Inr gs \<longrightarrow>
      map fst (transfers (since tr (snd (transfer_unique_gifts a cfg cid tr))))
        = map owned_gift_id gs \<and>
      fst (transfer_unique_gifts a cfg cid tr)
        = int (succeeded (transfers (since tr (snd (transfer_unique_gifts a cfg cid tr))))) \<and>
      0 \<le> fst (transfer_unique_gifts a cfg cid tr) \<and>
      fst (transfer_unique_gifts a cfg cid tr) \<le> int (length gs) \<and>
      (failed (transfers (since tr (snd (transfer_unique_gifts a cfg cid tr)))) = 1 \<longrightarrow>
         fst (transfer_unique_gifts a cfg cid tr) = int (length gs) - 1))"
proof (intro conjI impI)
  assume e: "get_business_account_gifts a tr cid True = Inr gs"
  from convert_enumeration_returns [OF e]
  obtain new where new: "snd (convert_non_unique_gifts_to_stars a cid tr) = tr @ new"
    "map fst (conversions new) = map owned_gift_id gs"
    "fst (convert_non_unique_gifts_to_stars a cid tr) = int (succeeded (conversions new))"
    by blast
  show "map fst (conversions (since tr (snd (convert_non_unique_gifts_to_stars a cid tr))))
        = map owned_gift_id gs"
    and "fst (convert_non_unique_gifts_to_stars a cid tr)
        = int (succeeded (conversions (since tr (snd (convert_non_unique_gifts_to_stars a cid tr)))))"
    and "0 \<le> fst (convert_non_unique_gifts_to_stars a cid tr)"
    and "fst (convert_non_unique_gifts_to_stars a cid tr) \<le> int (length gs)"
    using new count_bounds(1) [OF new(2)] by simp_all
  assume "failed (conversions (since tr (snd (convert_non_unique_gifts_to_stars a cid tr)))) = 1"
  then show "fst (convert_non_unique_gifts_to_stars a cid tr) = int (length gs) - 1"
    using new count_bounds(2) [OF new(2)] by simp
next
  assume e: "get_business_account_gifts a tr cid False = Inr gs"
  from transfer_enumeration_returns [OF e]
  obtain new where new: "snd (transfer_unique_gifts a cfg cid tr) = tr @ new"
    "map fst (transfers new) = map owned_gift_id gs"
    "fst (transfer_unique_gifts a cfg cid tr) = int (succeeded (transfers new))"
    by blast
  show "map fst (transfers (since tr (snd (transfer_unique_gifts a cfg cid tr))))
        = map owned_gift_id gs"
    and "fst (transfer_unique_gifts a cfg cid tr)
        = int (succeeded (transfers (since tr (snd (transfer_unique_gifts a cfg cid tr)))))"
    and "0 \<le> fst (transfer_unique_gifts a cfg cid tr)"
    and "fst (transfer_unique_gifts a cfg cid tr) \<le> int (length gs)"
    using new count_bounds(1) [OF new(2)] by simp_all
  assume "failed (transfers (since tr (snd (transfer_unique_gifts a cfg cid tr)))) = 1"
  then show "fst (transfer_unique_gifts a cfg cid tr) = int (length gs) - 1"
    using new count_bounds(2) [OF new(2)] by simp
qed

theorem extraction_counts_witness:
  "get_business_account_gifts demo_api [] ''H1'' True = Inr demo_gifts \<and>
   map fst (conversions (since [] (snd (convert_non_unique_gifts_to_stars demo_api ''H1'' []))))
     = [''g1'', ''g2'', ''g3''] \<and>
   failed (conversions (since [] (snd (convert_non_unique_gifts_to_stars demo_api ''H1'' [])))) = 1 \<and>
   fst (convert_non_unique_gifts_to_stars demo_api ''H1'' []) = 2 \<and>
   get_business_account_gifts demo_api [] ''H1'' False = Inr demo_gifts \<and>
   map fst (transfers (since [] (snd (transfer_unique_gifts demo_api demo_cfg ''H1'' []))))
     = [''g1'', ''g2'', ''g3''] \<and>
   failed (transfers (since [] (snd (transfer_unique_gifts demo_api demo_cfg ''H1'' [])))) = 1 \<and>
   fst (transfer_unique_gifts demo_api demo_cfg ''H1'' []) = 2"
  using extraction_counts [of demo_api "[]" "''H1''" demo_gifts demo_cfg]
  by (simp add: demo_convert demo_transfer since_def) (simp add: demo_api_def demo_gifts_def)

lemma send_loop_trace:
  "\<exists>new. send_loop a admins m tr = tr @ new \<and> sent new = map (\<lambda>i. (i, m)) admins \<and>
         conversions new = [] \<and> transfers new = [] \<and> star_transfers new = []"
proof (induction admins arbitrary: tr)
  case Nil
  then show ?case by simp
next
  case (Cons i admins)
  let ?ev = "(SendMessage i m, outcome_of (send_message a tr i m))"
  from Cons.IH [of "tr @ [?ev]"]
  obtain new where new: "send_loop a admins m (tr @ [?ev]) = (tr @ [?ev]) @ new"
    "sent new = map (\<lambda>i. (i, m)) admins"
    "conversions new = []" "transfers new = []" "star_transfers new = []"
    by blast
  show ?case
    using new by (intro exI [of _ "?ev # new"]) simp
qed

lemma transfer_remaining_stars_cases:
  "get_business_account_star_balance a tr cid = Inl e \<Longrightarrow>
     transfer_remaining_stars a cid tr = (0, tr @ [(GetBusinessAccountStarBalance cid, Raised e)])"
  "get_business_account_star_balance a tr cid = Inr amount \<Longrightarrow> \<not> amount > 0 \<Longrightarrow>
     transfer_remaining_stars a cid tr = (0, tr @ [(GetBusinessAccountStarBalance cid, Returned)])"
  "get_business_account_star_balance a tr cid = Inr amount \<Longrightarrow> amount > 0 \<Longrightarrow>
     transfer_business_account_stars a (tr @ [(GetBusinessAccountStarBalance cid, Returned)]) cid amount
       = Inl e \<Longrightarrow>
     transfer_remaining_stars a cid tr =
       (0, tr @ [(GetBusinessAccountStarBalance cid, Returned),
                 (TransferBusinessAccountStars cid amount, Raised e)])"
  "get_business_account_star_balance a tr cid = Inr amount \<Longrightarrow> amount > 0 \<Longrightarrow>
     transfer_business_account_stars a (tr @ [(GetBusinessAccountStarBalance cid, Returned)]) cid amount
       = Inr u \<Longrightarrow>
     transfer_remaining_stars a cid tr =
       (amount, tr @ [(GetBusinessAccountStarBalance cid, Returned),
                      (TransferBusinessAccountStars cid amount, Returned)])"
  by (simp_all add: transfer_remaining_stars_def)

lemma transfer_remaining_stars_trace:
  "\<exists>new. snd (transfer_remaining_stars a cid tr) = tr @ new \<and> sent new = [] \<and>
         conversions new = [] \<and> transfers new = [] \<and>
         star_transfers new =
           (case get_business_account_star_balance a tr cid of
              Inl e \<Rightarrow> []
            | Inr amount \<Rightarrow>
                if amount > 0
                then [(amount, outcome_of (transfer_business_account_stars a
                         (tr @ [(GetBusinessAccountStarBalance cid, Returned)]) cid amount))]
                else [])"
proof (cases "get_business_account_star_balance a tr cid")
  case (Inl e)
  show ?thesis
    by (rule exI [of _ "[(GetBusinessAccountStarBalance cid, Raised e)]"])
      (simp add: transfer_remaining_stars_cases(1) [OF Inl] Inl)
next
  case (Inr amount)
  show ?thesis
  proof (cases "amount > 0")
    case False
    show ?thesis
      by (rule exI [of _ "[(GetBusinessAccountStarBalance cid, Returned)]"])
        (simp add: transfer_remaining_stars_cases(2) [OF Inr False] Inr False)
  next
    case True
    let ?r = "transfer_business_account_stars a
                (tr @ [(GetBusinessAccountStarBalance cid, Returned)]) cid amount"
    show ?thesis
      by (rule exI [of _ "[(GetBusinessAccountStarBalance cid, Returned),
                           (TransferBusinessAccountStars cid amount, outcome_of ?r)]"])
        (cases ?r; simp add: transfer_remaining_stars_def Inr True)
  qed
qed

lemma convert_trace:
  "\<exists>new. snd (convert_non_unique_gifts_to_stars a cid tr) = tr @ new \<and> sent new = [] \<and>
         transfers new = [] \<and> star_transfers new = []"
proof (cases "get_business_account_gifts a tr cid True")
  case (Inl e)
  show ?thesis
    by (rule exI [of _ "[(GetBusinessAccountGifts cid True, Raised e)]"])
      (simp add: convert_enumeration_raises [OF Inl])
next
  case (Inr gs)
  from convert_enumeration_returns [OF Inr] show ?thesis by blast
qed

lemma transfer_trace:
  "\<exists>new. snd (transfer_unique_gifts a cfg cid tr) = tr @ new \<and> sent new = [] \<and>
         conversions new = [] \<and> star_transfers new = []"
proof (cases "get_business_account_gifts a tr cid False")
  case (Inl e)
  show ?thesis
    by (rule exI [of _ "[(GetBusinessAccountGifts cid False, Raised e)]"])
      (simp add: transfer_enumeration_raises [OF Inl])
next
  case (Inr gs)
  from transfer_enumeration_returns [OF Inr] show ?thesis by blast
qed

lemma process_connected_account_result:
  "fst (process_connected_account a cfg cid uname tr) =
     (fst (convert_non_unique_gifts_to_stars a cid tr),
      fst (transfer_unique_gifts a cfg cid (snd (convert_non_unique_gifts_to_stars a cid tr))),
      fst (transfer_remaining_stars a cid
             (snd (transfer_unique_gifts a cfg cid (snd (convert_non_unique_gifts_to_stars a cid tr))))))"
  by (simp add: process_connected_account_def split_def Let_def)

lemma process_connected_account_sent:
  "sent (since tr (snd (process_connected_account a cfg cid uname tr))) =
     map (\<lambda>i. (i, AutomationCompleteText uname
                    (fst (fst (process_connected_account a cfg cid uname tr)))
                    (fst (snd (fst (process_connected_account a cfg cid uname tr))))
                    (snd (snd (fst (process_connected_account a cfg cid uname tr))))
                    (fst (snd (fst (process_connected_account a cfg cid uname tr))) * TRANSFER_FEE cfg)))
       (ADMIN_IDS cfg)"
proof -
  let ?r1 = "convert_non_unique_gifts_to_stars a cid tr"
  let ?r2 = "transfer_unique_gifts a cfg cid (snd ?r1)"
  let ?r3 = "transfer_remaining_stars a cid (snd ?r2)"
  let ?m = "AutomationCompleteText uname (fst ?r1) (fst ?r2) (fst ?r3) (fst ?r2 * TRANSFER_FEE cfg)"
  obtain n1 where n1: "snd ?r1 = tr @ n1" "sent n1 = []"
    using convert_trace [of a cid tr] by blast
  obtain n2 where n2: "snd ?r2 = snd ?r1 @ n2" "sent n2 = []"
    using transfer_trace [of a cfg cid "snd ?r1"] by blast
  obtain n3 where n3: "snd ?r3 = snd ?r2 @ n3" "sent n3 = []"
    using transfer_remaining_stars_trace [of a cid "snd ?r2"] by blast
  obtain n4 where n4: "send_loop a (ADMIN_IDS cfg) ?m (snd ?r3) = snd ?r3 @ n4"
    "sent n4 = map (\<lambda>i. (i, ?m)) (ADMIN_IDS cfg)"
    using send_loop_trace [of a "ADMIN_IDS cfg" ?m "snd ?r3"] by blast
  have "snd (process_connected_account a cfg cid uname tr) = tr @ (n1 @ n2 @ n3 @ n4)"
    using n1(1) n2(1) n3(1) n4(1)
    by (simp add: process_connected_account_def split_def Let_def)
  then have "sent (since tr (snd (process_connected_account a cfg cid uname tr))) =
             map (\<lambda>i. (i, ?m)) (ADMIN_IDS cfg)"
    using n1(2) n2(2) n3(2) n4(2) by simp
  then show ?thesis
    by (simp add: process_connected_account_result)
qed

lemma convert_loop_send_message:
  "convert_loop (a\<lparr>send_message := f\<rparr>) cid gs n tr = convert_loop a cid gs n tr"
  by (induction gs arbitrary: n tr) (simp_all add: Let_def split: sum.split)

lemma transfer_loop_send_message:
  "transfer_loop (a\<lparr>send_message := f\<rparr>) cfg cid gs n tr = transfer_loop a cfg cid gs n tr"
  by (induction gs arbitrary: n tr) (simp_all add: Let_def split: sum.split)

lemma steps_send_message:
  "convert_non_unique_gifts_to_stars (a\<lparr>send_message := f\<rparr>) cid tr =
     convert_non_unique_gifts_to_stars a cid tr"
  "transfer_unique_gifts (a\<lparr>send_message := f\<rparr>) cfg cid tr = transfer_unique_gifts a cfg cid tr"
  "transfer_remaining_stars (a\<lparr>send_message := f\<rparr>) cid tr = transfer_remaining_stars a cid tr"
  by (simp_all add: convert_non_unique_gifts_to_stars_def transfer_unique_gifts_def
      transfer_remaining_stars_def convert_loop_send_message transfer_loop_send_message Let_def
      split: sum.split)

text \<open>
  Claim C5. The second component of the result of \<open>process_connected_account\<close> is the
  count that \<open>transfer_unique_gifts\<close> returned, and every summary sent carries, as total
  cost, that count times \<open>TRANSFER_FEE\<close>, for every value of the fee.
\<close>

theorem total_transfer_cost:
  "fst (snd (fst (process_connected_account a cfg cid uname tr))) =
     fst (transfer_unique_gifts a cfg cid (snd (convert_non_unique_gifts_to_stars a cid tr))) \<and>
   map snd (sent (since tr (snd (process_connected_account a cfg cid uname tr)))) =
     replicate (length (ADMIN_IDS cfg))
       (AutomationCompleteText uname
          (fst (convert_non_unique_gifts_to_stars a cid tr))
          (fst (transfer_unique_gifts a cfg cid (snd (convert_non_unique_gifts_to_stars a cid tr))))
          (snd (snd (fst (process_connected_account a cfg cid uname tr))))
          (fst (transfer_unique_gifts a cfg cid (snd (convert_non_unique_gifts_to_stars a cid tr)))
             * TRANSFER_FEE cfg))"
  by (simp add: process_connected_account_sent comp_def map_replicate_const)
    (simp add: process_connected_account_result)

text \<open>
  Claim C7. Whatever \<open>send_message\<close> does, \<open>process_connected_account\<close> calls it once
  for every entry of \<open>ADMIN_IDS\<close>, in order, and its result is the same for every
  behaviour of \<open>send_message\<close>.
\<close>

theorem notification_fanout:
  "map fst (sent (since tr (snd (process_connected_account a cfg cid uname tr)))) = ADMIN_IDS cfg \<and>
   length (sent (since tr (snd (process_connected_account a cfg cid uname tr)))) = length (ADMIN_IDS cfg) \<and>
   fst (process_connected_account (a\<lparr>send_message := f\<rparr>) cfg cid uname tr) =
     fst (process_connected_account a cfg cid uname tr)"
  by (simp add: process_connected_account_sent comp_def)
    (simp add: process_connected_account_result steps_send_message)

text \<open>
  Claim C6, as stated, fails: with three items of which the second cannot be converted,
  an exception is raised inside the conversion step and the step returns 2, not 0.
\<close>

theorem per_item_exception_counterexample:
  "map snd (conversions (snd (convert_non_unique_gifts_to_stars demo_api ''H1'' []))) =
     [Returned, Raised (OtherException ''STARGIFT_CONVERT_TOO_OLD''), Returned] \<and>
   fst (convert_non_unique_gifts_to_stars demo_api ''H1'' []) = 2"
  by (simp add: demo_convert)

text \<open>
  Claim C6, amended. A step returns 0 when its enumeration raises (steps 1 and 2), when
  the enumeration of step 2 yields no item, and when the balance query or the balance
  transfer raises (step 3); in the first three cases no item call is made. An exception
  of a call for one item is skipped: the step returns the number of calls that returned.
  Step 3 makes a balance transfer exactly when the balance is greater than 0, and then
  for the whole amount. The result of \<open>process_connected_account\<close> is made of the three
  counts; no path of the model raises.
\<close>

theorem sub_operations_on_failure:
  "(get_business_account_gifts a tr cid True = Inl e \<longrightarrow>
      fst (convert_non_unique_gifts_to_stars a cid tr) = 0 \<and>
      conversions (since tr (snd (convert_non_unique_gifts_to_stars a cid tr))) = []) \<and>
   (get_business_account_gifts a tr cid True = Inr gs \<longrightarrow>
      fst (convert_non_unique_gifts_to_stars a cid tr) =
        int (succeeded (conversions (since tr (snd (convert_non_unique_gifts_to_stars a cid tr)))))) \<and>
   (get_business_account_gifts a tr cid False = Inl e \<or>
    get_business_account_gifts a tr cid False = Inr [] \<longrightarrow>
      fst (transfer_unique_gifts a cfg cid tr) = 0 \<and>
      transfers (since tr (snd (transfer_unique_gifts a cfg cid tr))) = []) \<and>
   (get_business_account_gifts a tr cid False = Inr gs \<longrightarrow>
      fst (transfer_unique_gifts a cfg cid tr) =
        int (succeeded (transfers (since tr (snd (transfer_unique_gifts a cfg cid tr)))))) \<and>
   (get_business_account_star_balance a tr cid = Inl e \<longrightarrow>
      fst (transfer_remaining_stars a cid tr) = 0 \<and>
      star_transfers (since tr (snd (transfer_remaining_stars a cid tr))) = []) \<and>
   (get_business_account_star_balance a tr cid = Inr amount \<longrightarrow>
      star_transfers (since tr (snd (transfer_remaining_stars a cid tr))) =
        (if amount > 0
         then [(amount, outcome_of (transfer_business_account_stars a
                  (tr @ [(GetBusinessAccountStarBalance cid, Returned)]) cid amount))]
         else []) \<and>
      fst (transfer_remaining_stars a cid tr) =
        (if amount > 0 \<and> transfer_business_account_stars a
              (tr @ [(GetBusinessAccountStarBalance cid, Returned)]) cid amount = Inr ()
         then amount else 0)) \<and>
   fst (process_connected_account a cfg cid uname tr) =
     (fst (convert_non_unique_gifts_to_stars a cid tr),
      fst (transfer_unique_gifts a cfg cid (snd (convert_non_unique_gifts_to_stars a cid tr))),
      fst (transfer_remaining_stars a cid
             (snd (transfer_unique_gifts a cfg cid (snd (convert_non_unique_gifts_to_stars a cid tr))))))"
proof (intro conjI impI)
  assume "get_business_account_gifts a tr cid True = Inl e"
  then show "fst (convert_non_unique_gifts_to_stars a cid tr) = 0"
    and "conversions (since tr (snd (convert_non_unique_gifts_to_stars a cid tr))) = []"
    by (simp_all add: convert_enumeration_raises)
next
  assume "get_business_account_gifts a tr cid True = Inr gs"
  from convert_enumeration_returns [OF this]
  show "fst (convert_non_unique_gifts_to_stars a cid tr) =
        int (succeeded (conversions (since tr (snd (convert_non_unique_gifts_to_stars a cid tr)))))"
    by auto
next
  assume "get_business_account_gifts a tr cid False = Inl e \<or>
          get_business_account_gifts a tr cid False = Inr []"
  then show "fst (transfer_unique_gifts a cfg cid tr) = 0"
    and "transfers (since tr (snd (transfer_unique_gifts a cfg cid tr))) = []"
    by (auto simp add: transfer_enumeration_raises transfer_enumeration_empty)
next
  assume "get_business_account_gifts a tr cid False = Inr gs"
  from transfer_enumeration_returns [OF this, of cfg]
  show "fst (transfer_unique_gifts a cfg cid tr) =
        int (succeeded (transfers (since tr (snd (transfer_unique_gifts a cfg cid tr)))))"
    by auto
next
  assume "get_business_account_star_balance a tr cid = Inl e"
  then show "fst (transfer_remaining_stars a cid tr) = 0"
    and "star_transfers (since tr (snd (transfer_remaining_stars a cid tr))) = []"
    by (simp_all add: transfer_remaining_stars_cases(1))
next
  assume b: "get_business_account_star_balance a tr cid = Inr amount"
  from transfer_remaining_stars_trace [of a cid tr]
  show "star_transfers (since tr (snd (transfer_remaining_stars a cid tr))) =
        (if amount > 0
         then [(amount, outcome_of (transfer_business_account_stars a
                  (tr @ [(GetBusinessAccountStarBalance cid, Returned)]) cid amount))]
         else [])"
    by (auto simp add: b)
  show "fst (transfer_remaining_stars a cid tr) =
        (if amount > 0 \<and> transfer_business_account_stars a
              (tr @ [(GetBusinessAccountStarBalance cid, Returned)]) cid amount = Inr ()
         then amount else 0)"
    by (simp add: transfer_remaining_stars_def b Let_def split: sum.split)
next
  show "fst (process_connected_account a cfg cid uname tr) =
     (fst (convert_non_unique_gifts_to_stars a cid tr),
      fst (transfer_unique_gifts a cfg cid (snd (convert_non_unique_gifts_to_stars a cid tr))),
      fst (transfer_remaining_stars a cid
             (snd (transfer_unique_gifts a cfg cid (snd (convert_non_unique_gifts_to_stars a cid tr))))))"
    by (rule process_connected_account_result)
qed

theorem sub_operations_on_failure_witness:
  "get_business_account_gifts failing_api [] ''H1'' True = Inl (OtherException ''Request timeout error'') \<and>
   fst (convert_non_unique_gifts_to_stars failing_api ''H1'' []) = 0 \<and>
   get_business_account_gifts failing_api [] ''H1'' False = Inl (OtherException ''Request timeout error'') \<and>
   fst (transfer_unique_gifts failing_api demo_cfg ''H1'' []) = 0 \<and>
   transfers (since [] (snd (transfer_unique_gifts failing_api demo_cfg ''H1'' []))) = [] \<and>
   get_business_account_star_balance failing_api [] ''H1'' = Inl (OtherException ''Request timeout error'') \<and>
   fst (transfer_remaining_stars failing_api ''H1'' []) = 0 \<and>
   star_transfers (since [] (snd (transfer_remaining_stars failing_api ''H1'' []))) = [] \<and>
   get_business_account_gifts empty_api [] ''H1'' False = Inr [] \<and>
   fst (transfer_unique_gifts empty_api demo_cfg ''H1'' []) = 0 \<and>
   transfers (since [] (snd (transfer_unique_gifts empty_api demo_cfg ''H1'' []))) = [] \<and>
   get_business_account_gifts demo_api [] ''H1'' True = Inr demo_gifts \<and>
   fst (convert_non_unique_gifts_to_stars demo_api ''H1'' []) = 2 \<and>
   get_business_account_star_balance demo_api [] ''H1'' = Inr 10 \<and>
   star_transfers (since [] (snd (transfer_remaining_stars demo_api ''H1'' []))) = [(10, Returned)] \<and>
   fst (transfer_remaining_stars demo_api ''H1'' []) = 10"
  using sub_operations_on_failure [of failing_api "[]" "''H1''" "OtherException ''Request timeout error''"
      demo_gifts demo_cfg 10 "''alice''"]
    sub_operations_on_failure [of empty_api "[]" "''H1''" "OtherException ''Request timeout error''"
      "[]" demo_cfg 10 "''alice''"]
    sub_operations_on_failure [of demo_api "[]" "''H1''" "OtherException ''Request timeout error''"
      demo_gifts demo_cfg 10 "''alice''"]
  by (simp add: demo_convert demo_stars since_def)
    (simp add: failing_api_def empty_api_def demo_api_def demo_gifts_def)

end
